theory Spec2Isabelle
  imports Main
begin

section \<open>JavaScript strings\<close>

text \<open>
  A JavaScript string is modelled as a HOL \<open>string\<close>, one \<open>char\<close> per code unit in
  the range 0..255. \<open>String.prototype.trim\<close> removes white space and line terminators
  from both ends; in that range these are TAB, LF, VT, FF, CR, SPACE and NBSP.
\<close>

definition is_ws :: "char \<Rightarrow> bool" where
  "is_ws c = (c \<in> set [CHR 0x09, CHR 0x0A, CHR 0x0B, CHR 0x0C, CHR 0x0D, CHR 0x20, CHR 0xA0])"

definition trim :: "string \<Rightarrow> string" where
  "trim s = rev (dropWhile is_ws (rev (dropWhile is_ws s)))"

text \<open>\<open>s.startsWith(p)\<close>.\<close>

definition startsWith :: "string \<Rightarrow> string \<Rightarrow> bool" where
  "startsWith s p = (take (length p) s = p)"

text \<open>\<open>s.includes(p)\<close>: \<open>p\<close> occurs in \<open>s\<close> at some position.\<close>

fun includesStr :: "string \<Rightarrow> string \<Rightarrow> bool" where
  "includesStr [] p = (p = [])"
| "includesStr (c # cs) p = (startsWith (c # cs) p \<or> includesStr cs p)"

text \<open>\<open>s.indexOf(p)\<close>: the first position of \<open>p\<close> in \<open>s\<close>, or \<open>-1\<close>.\<close>

fun indexOf :: "string \<Rightarrow> string \<Rightarrow> int" where
  "indexOf [] p = (if p = [] then 0 else - 1)"
| "indexOf (c # cs) p =
     (if startsWith (c # cs) p then 0
      else (let r = indexOf cs p in if r < 0 then - 1 else r + 1))"

text \<open>\<open>s.substring(i)\<close>: a negative start counts as 0, one past the end gives the empty string.\<close>

definition substring :: "string \<Rightarrow> int \<Rightarrow> string" where
  "substring s i = drop (nat i) s"

text \<open>\<open>s.split(c)\<close> for a one-character separator; the empty string splits into \<open>['''']\<close>.\<close>

fun split :: "char \<Rightarrow> string \<Rightarrow> string list" where
  "split c [] = [[]]"
| "split c (x # xs) =
     (if x = c then [] # split c xs
      else (case split c xs of [] \<Rightarrow> [[x]] | w # ws \<Rightarrow> (x # w) # ws))"

text \<open>\<open>parts.join(sep)\<close>.\<close>

fun join :: "string \<Rightarrow> string list \<Rightarrow> string" where
  "join sep [] = []"
| "join sep [w] = w"
| "join sep (w # v # ws) = w @ sep @ join sep (v # ws)"

text \<open>
  An optional property of a JavaScript object is an \<open>option\<close>. A string property is truthy
  when it is present and not empty; inside a template literal an absent property reads
  \<open>undefined\<close>.
\<close>

definition truthy :: "string option \<Rightarrow> bool" where
  "truthy v = (case v of None \<Rightarrow> False | Some s \<Rightarrow> s \<noteq> [])"

definition str :: "string option \<Rightarrow> string" where
  "str v = (case v of None \<Rightarrow> ''undefined'' | Some s \<Rightarrow> s)"

text \<open>
  \<open>s.replace(/```(?:javascript|typescript)?\n|\n```/g, '''')\<close>: scanning from the left,
  every opening fence (three backticks, an optional language name, a line feed) and every
  closing fence (a line feed, three backticks) is removed.
\<close>

definition fence :: string where
  "fence = [CHR 0x60, CHR 0x60, CHR 0x60]"

definition nl :: string where
  "nl = [CHR 0x0A]"

fun stripFences :: "string \<Rightarrow> string" where
  "stripFences [] = []"
| "stripFences (c # cs) =
     (if startsWith (c # cs) (fence @ ''javascript'' @ nl) then stripFences (drop 13 cs)
      else if startsWith (c # cs) (fence @ ''typescript'' @ nl) then stripFences (drop 13 cs)
      else if startsWith (c # cs) (fence @ nl) then stripFences (drop 3 cs)
      else if startsWith (c # cs) (nl @ fence) then stripFences (drop 3 cs)
      else c # stripFences cs)"

section \<open>Tag vocabulary\<close>

text \<open>
  The tags the generator manages. builder.js takes \<open>MANAGED_JSDOC_TAGS\<close> from its module
  \<open>constants\<close>; jsdocGenerator.js, which holds the same functions, defines the set as
  follows. The names \<open>constructor\<close>, \<open>augments\<close> and \<open>extends\<close> are not in it, so the
  parse loop files such lines under \<open>other\<close>.
\<close>

definition MANAGED_JSDOC_TAGS :: "string set" where
  "MANAGED_JSDOC_TAGS =
     {''param'', ''returns'', ''throws'', ''example'', ''class'', ''description''}"

section \<open>Data model\<close>

record Comment =
  c_type :: string
  c_value :: string

record TagEntry =
  originalLine :: string
  content :: string

record Param =
  p_name :: string
  p_type :: string
  p_description :: string

record Returns =
  r_type :: "string option"
  r_description :: "string option"

record Throw =
  t_description :: string

record InferredJSDoc =
  name :: "string option"
  functionName :: "string option"
  description :: "string option"
  extendsClass :: "string option"
  constructorDescription :: "string option"
  constructorParams :: "Param list option"
  params :: "Param list option"
  returns :: "Returns option"
  throws :: "Throw list option"
  examples :: "string list option"

text \<open>\<open>xs?.length\<close> as a condition: the array is present and not empty.\<close>

definition hasLength :: "'a list option \<Rightarrow> bool" where
  "hasLength v = (case v of None \<Rightarrow> False | Some xs \<Rightarrow> xs \<noteq> [])"

text \<open>\<open>xs?.forEach(...)\<close>: an absent array is skipped.\<close>

definition items :: "'a list option \<Rightarrow> 'a list" where
  "items v = (case v of None \<Rightarrow> [] | Some xs \<Rightarrow> xs)"

section \<open>getJSDocBlocks\<close>

definition cleanLine :: "string \<Rightarrow> string" where
  "cleanLine line =
     (let l = trim line in if startsWith l ''*'' then trim (substring l 1) else l)"

definition getJSDocBlocks :: "Comment list option \<Rightarrow> string list option" where
  "getJSDocBlocks comments =
     (case comments of
        None \<Rightarrow> None
      | Some cs \<Rightarrow>
          if length cs = 0 then None
          else (case find (\<lambda>c. c_type c = ''CommentBlock'' \<and> startsWith (c_value c) ''*'') cs of
                  None \<Rightarrow> None
                | Some jsdocComment \<Rightarrow>
                    (let lines = map cleanLine (split (CHR 0x0A) (c_value jsdocComment));
                         lines1 = (case lines of [] \<Rightarrow> []
                                   | l # ls \<Rightarrow> if l = [] then ls else l # ls);
                         lines2 = (if lines1 \<noteq> [] \<and> (last lines1 = ''*/'' \<or> last lines1 = ''/'')
                                   then butlast lines1 else lines1)
                     in Some lines2)))"

section \<open>updateJSDocBlock\<close>

subsection \<open>Parsing the existing lines\<close>

text \<open>
  \<open>existingTags\<close> is a \<open>Map\<close> from a key (a managed tag name, or \<open>other\<close>) to the
  array of entries pushed under that key. It is modelled as the list of (key, entry) pairs
  in the order of the pushes: \<open>get\<close> returns the entries of a key in that order (no entry
  for \<open>undefined\<close>), \<open>has\<close> holds when the key has an entry, and \<open>size > 0\<close> when the list
  is not empty, since a key is created only together with its first entry.
\<close>

type_synonym TagMap = "(string \<times> TagEntry) list"

definition get :: "TagMap \<Rightarrow> string \<Rightarrow> TagEntry list" where
  "get m k = map snd (filter (\<lambda>e. fst e = k) m)"

definition has :: "TagMap \<Rightarrow> string \<Rightarrow> bool" where
  "has m k = (get m k \<noteq> [])"

record ParseState =
  existingTags :: TagMap
  mainDescription :: string
  foundMainDescription :: bool

definition tagNameOf :: "string \<Rightarrow> string" where
  "tagNameOf trimmedLine =
     (let parts = split (CHR 0x20) trimmedLine;
          tagName = substring (hd parts) 1
      in if tagName = ''return'' then ''returns'' else tagName)"

definition tagContentOf :: "string \<Rightarrow> string" where
  "tagContentOf trimmedLine = trim (join '' '' (tl (split (CHR 0x20) trimmedLine)))"

text \<open>
  One turn of the loop over the existing lines. The warning printed for a tag outside
  \<open>VALID_JSDOC_TAGS\<close> does not change the result and is left out.
\<close>

definition parseLine :: "ParseState \<Rightarrow> string \<Rightarrow> ParseState" where
  "parseLine st line =
     (let trimmedLine = trim line in
      if startsWith trimmedLine ''@'' then
        (let tagName = tagNameOf trimmedLine;
             entry = \<lparr>originalLine = trimmedLine, content = tagContentOf trimmedLine\<rparr>
         in if tagName \<in> MANAGED_JSDOC_TAGS
            then st\<lparr>existingTags := existingTags st @ [(tagName, entry)]\<rparr>
            else st\<lparr>existingTags := existingTags st @ [(''other'', entry)]\<rparr>)
      else if trimmedLine \<noteq> [] \<and> \<not> foundMainDescription st then
        (if mainDescription st = [] then st\<lparr>mainDescription := trimmedLine\<rparr>
         else st\<lparr>mainDescription := mainDescription st @ nl @ trimmedLine\<rparr>)
      else st)"

definition parseLines :: "string list \<Rightarrow> ParseState" where
  "parseLines existingJSDocLines =
     foldl parseLine
       \<lparr>existingTags = [], mainDescription = [], foundMainDescription = False\<rparr>
       existingJSDocLines"

subsection \<open>The eight sections of the output\<close>

text \<open>
  The function pushes its lines onto \<open>updatedLines\<close> section by section, in the order
  of its comments 1 to 8. Each section is a function here, from the parsed tags and the
  metadata to the lines it pushes.
\<close>

text \<open>1. Main description.\<close>

definition placeholderDesc :: string where
  "placeholderDesc = ''Description placeholder.''"

definition descriptionLines :: "string \<Rightarrow> InferredJSDoc \<Rightarrow> string list" where
  "descriptionLines md inferred =
     (let existingMainDescriptionIsPlaceholder = (md = [] \<or> includesStr md placeholderDesc) in
      if truthy (description inferred) \<and> description inferred \<noteq> Some placeholderDesc then
        (if \<not> existingMainDescriptionIsPlaceholder then [md]
         else [str (description inferred)])
      else if md \<noteq> [] then [md]
      else [])"

text \<open>
  The blank line after the description; \<open>updatedLines\<close> holds the description lines at
  that point, and \<open>inferredJSDoc.returns?.type\<close> is the type of a present \<open>returns\<close>.
\<close>

definition returnsType :: "InferredJSDoc \<Rightarrow> string option" where
  "returnsType inferred = (case returns inferred of None \<Rightarrow> None | Some r \<Rightarrow> r_type r)"

definition separatorLines :: "string list \<Rightarrow> TagMap \<Rightarrow> InferredJSDoc \<Rightarrow> string list" where
  "separatorLines updatedLines tags inferred =
     (if length updatedLines > 0 \<and>
         (hasLength (params inferred) \<or> truthy (returnsType inferred) \<or>
          hasLength (throws inferred) \<or> hasLength (examples inferred) \<or> length tags > 0)
      then [[]] else [])"

text \<open>2. Class-specific tags.\<close>

definition classLines :: "TagMap \<Rightarrow> InferredJSDoc \<Rightarrow> string list" where
  "classLines tags inferred =
     (if truthy (name inferred) then
        (if \<not> has tags ''class'' then [''@class'']
         else [originalLine (hd (get tags ''class''))]) @
        (if truthy (extendsClass inferred) then
           (let existingExtends =
                  (if has tags ''augments'' then get tags ''augments'' else get tags ''extends'')
            in if existingExtends = [] \<or>
                  list_ex (\<lambda>e. content e \<noteq> str (extendsClass inferred)) existingExtends
               then [''@augments '' @ str (extendsClass inferred)]
               else [originalLine (hd existingExtends)])
         else [])
      else [])"

text \<open>
  3. Constructor-specific tags. \<open>paramPrefix\<close> is the template \<open>{type} name\<close>,
  \<open>paramPlaceholder\<close> the template \<open>The type value of name.\<close>, and \<open>afterName\<close> the text
  of the existing content after the first occurrence of the name.
\<close>

definition paramPrefix :: "Param \<Rightarrow> string" where
  "paramPrefix param = ''{'' @ p_type param @ ''} '' @ p_name param"

definition paramPlaceholder :: "Param \<Rightarrow> string" where
  "paramPlaceholder param = ''The '' @ p_type param @ '' value of '' @ p_name param @ ''.''"

definition afterName :: "string \<Rightarrow> Param \<Rightarrow> string" where
  "afterName c param =
     trim (substring c (indexOf c (p_name param) + int (length (p_name param))))"

definition constructorParamLine :: "TagMap \<Rightarrow> Param \<Rightarrow> string" where
  "constructorParamLine tags param =
     (case find (\<lambda>p. startsWith (content p) (paramPrefix param)) (get tags ''param'') of
        Some existingParam \<Rightarrow>
          if content existingParam \<noteq> paramPlaceholder param
          then ''@param '' @ paramPrefix param @ '' '' @ afterName (content existingParam) param
          else ''@param '' @ paramPrefix param @ '' - '' @ p_description param
      | None \<Rightarrow> ''@param '' @ paramPrefix param @ '' - '' @ p_description param)"

definition constructorDescPlaceholder :: string where
  "constructorDescPlaceholder = ''Initializes a new instance of the class.''"

definition constructorLines :: "TagMap \<Rightarrow> InferredJSDoc \<Rightarrow> string list" where
  "constructorLines tags inferred =
     (if truthy (constructorDescription inferred) then
        (case find (\<lambda>tag. content tag \<noteq> constructorDescPlaceholder) (get tags ''constructor'') of
           Some existingConsDesc \<Rightarrow> [''@constructor '' @ content existingConsDesc]
         | None \<Rightarrow>
             if truthy (constructorDescription inferred) \<and>
                constructorDescription inferred \<noteq> Some constructorDescPlaceholder
             then [''@constructor '' @ str (constructorDescription inferred)]
             else if has tags ''constructor''
             then [originalLine (hd (get tags ''constructor''))]
             else []) @
        (if hasLength (constructorParams inferred)
         then map (constructorParamLine tags) (items (constructorParams inferred))
         else [])
      else [])"

text \<open>4. Parameters.\<close>

definition paramLine :: "TagMap \<Rightarrow> Param \<Rightarrow> string" where
  "paramLine tags param =
     (case find (\<lambda>p. includesStr (content p) (paramPrefix param)) (get tags ''param'') of
        Some existingParam \<Rightarrow>
          if \<not> includesStr (content existingParam) (paramPlaceholder param) then
            (let originalDescription = afterName (content existingParam) param;
                 originalDescription =
                   (if startsWith originalDescription ''-''
                    then trim (substring originalDescription 1) else originalDescription)
             in ''@param '' @ paramPrefix param @ '' - '' @ originalDescription)
          else ''@param '' @ paramPrefix param @ '' - '' @ p_description param
      | None \<Rightarrow> ''@param '' @ paramPrefix param @ '' - '' @ p_description param)"

definition paramLines :: "TagMap \<Rightarrow> InferredJSDoc \<Rightarrow> string list" where
  "paramLines tags inferred = map (paramLine tags) (items (params inferred))"

text \<open>5. Returns.\<close>

definition placeholderReturnsDesc :: string where
  "placeholderReturnsDesc = ''The result of the operation.''"

definition returnsLines :: "TagMap \<Rightarrow> InferredJSDoc \<Rightarrow> string list" where
  "returnsLines tags inferred =
     (case returns inferred of
        None \<Rightarrow> []
      | Some r \<Rightarrow>
          if truthy (r_type r) \<and> r_type r \<noteq> Some ''void'' then
            (case find (\<lambda>tag. content tag \<noteq> placeholderReturnsDesc) (get tags ''returns'') of
               Some existingReturns \<Rightarrow>
                 if content existingReturns \<noteq> [] \<and>
                    content existingReturns \<noteq> placeholderReturnsDesc
                 then [''@returns {'' @ str (r_type r) @ ''} '' @ content existingReturns]
                 else [''@returns {'' @ str (r_type r) @ ''} '' @ str (r_description r)]
             | None \<Rightarrow> [''@returns {'' @ str (r_type r) @ ''} '' @ str (r_description r)])
          else [])"

text \<open>6. Throws.\<close>

definition throwLine :: "TagMap \<Rightarrow> Throw \<Rightarrow> string" where
  "throwLine tags thr =
     (case find (\<lambda>t. includesStr (content t) (t_description thr)) (get tags ''throws'') of
        None \<Rightarrow> ''@throws {Error} '' @ t_description thr
      | Some existingThrow \<Rightarrow> originalLine existingThrow)"

definition throwsLines :: "TagMap \<Rightarrow> InferredJSDoc \<Rightarrow> string list" where
  "throwsLines tags inferred = map (throwLine tags) (items (throws inferred))"

text \<open>7. Examples.\<close>

definition exampleLine :: "TagMap \<Rightarrow> string \<Rightarrow> string list" where
  "exampleLine tags example =
     (let cleanedExample = trim (stripFences example);
          exists = list_ex (\<lambda>ex. trim (stripFences (content ex)) = cleanedExample)
                     (get tags ''example'')
      in if \<not> exists \<and> includesStr example fence then [''@example '' @ example] else [])"

definition exampleLines :: "TagMap \<Rightarrow> InferredJSDoc \<Rightarrow> string list" where
  "exampleLines tags inferred = concat (map (exampleLine tags) (items (examples inferred)))"

text \<open>8. Other existing tags.\<close>

definition otherLines :: "TagMap \<Rightarrow> string list" where
  "otherLines tags = map originalLine (get tags ''other'')"

subsection \<open>The function\<close>

definition updateJSDocBlock :: "string list \<Rightarrow> InferredJSDoc \<Rightarrow> string list" where
  "updateJSDocBlock existingJSDocLines inferred =
     (let st = parseLines existingJSDocLines;
          tags = existingTags st;
          updatedLines = descriptionLines (mainDescription st) inferred
      in updatedLines @ separatorLines updatedLines tags inferred @
         classLines tags inferred @ constructorLines tags inferred @
         paramLines tags inferred @ returnsLines tags inferred @
         throwsLines tags inferred @ exampleLines tags inferred @ otherLines tags)"

section \<open>buildJSDocLines\<close>

text \<open>
  The first line pushed is \<open>inferredJSDoc.description\<close> itself, which is \<open>undefined\<close>
  when the property is absent: a line of the result is a \<open>string option\<close>.
\<close>

definition freshParamLine :: "Param \<Rightarrow> string" where
  "freshParamLine param = ''@param '' @ paramPrefix param @ '' - '' @ p_description param"

definition buildJSDocLines :: "InferredJSDoc \<Rightarrow> string option list" where
  "buildJSDocLines inferred =
     (if truthy (name inferred) then
        [description inferred, Some ''@class''] @
        (if truthy (extendsClass inferred)
         then [Some (''@augments '' @ str (extendsClass inferred))] else []) @
        (if hasLength (examples inferred)
         then Some [] # map (\<lambda>ex. Some (''@example '' @ ex)) (items (examples inferred))
         else []) @
        (if truthy (constructorDescription inferred)
         then Some (''@constructor '' @ str (constructorDescription inferred)) #
              map (\<lambda>param. Some (freshParamLine param)) (items (constructorParams inferred))
         else [])
      else
        [description inferred] @
        (if hasLength (params inferred)
         then Some [] # map (\<lambda>param. Some (freshParamLine param)) (items (params inferred))
         else []) @
        (case returns inferred of
           None \<Rightarrow> []
         | Some r \<Rightarrow>
             if truthy (r_type r) \<and> r_type r \<noteq> Some ''void''
             then [Some (''@returns {'' @ str (r_type r) @ ''} '' @ str (r_description r))]
             else []) @
        (if hasLength (throws inferred)
         then map (\<lambda>thr. Some (''@throws {Error} '' @ t_description thr)) (items (throws inferred))
         else []) @
        (if hasLength (examples inferred)
         then map (\<lambda>ex. Some (''@example '' @ ex)) (items (examples inferred))
         else []))"

section \<open>Notions used to state the properties\<close>

text \<open>A metadata object without any property.\<close>

definition emptyDoc :: InferredJSDoc where
  "emptyDoc = \<lparr>name = None, functionName = None, description = None, extendsClass = None,
     constructorDescription = None, constructorParams = None, params = None, returns = None,
     throws = None, examples = None\<rparr>"

text \<open>
  The entry the parse loop makes of a trimmed tag line, with the key it is pushed under.
\<close>

definition entryOf :: "string \<Rightarrow> TagEntry" where
  "entryOf t = \<lparr>originalLine = t, content = tagContentOf t\<rparr>"

definition keyOf :: "string \<Rightarrow> string" where
  "keyOf t = (if tagNameOf t \<in> MANAGED_JSDOC_TAGS then tagNameOf t else ''other'')"

text \<open>The tag lines of an existing comment, trimmed, in their order.\<close>

definition tagLines :: "string list \<Rightarrow> string list" where
  "tagLines E = filter (\<lambda>t. startsWith t ''@'') (map trim E)"

text \<open>
  The tag a line carries, read the way the parse loop reads it: the line is trimmed, must
  start with \<open>@\<close>, and the name runs to the first space (\<open>return\<close> counts as
  \<open>returns\<close>).
\<close>

definition tagOfLine :: "string \<Rightarrow> string option" where
  "tagOfLine l = (if startsWith (trim l) ''@'' then Some (tagNameOf (trim l)) else None)"

definition isManagedTagLine :: "string \<Rightarrow> bool" where
  "isManagedTagLine l =
     (case tagOfLine l of None \<Rightarrow> False | Some k \<Rightarrow> k \<in> MANAGED_JSDOC_TAGS)"

definition isClassLine :: "string \<Rightarrow> bool" where
  "isClassLine l = (tagOfLine l = Some ''class'')"

definition isUnmanagedTagLine :: "string \<Rightarrow> bool" where
  "isUnmanagedTagLine l =
     (case tagOfLine l of None \<Rightarrow> False | Some k \<Rightarrow> k \<notin> MANAGED_JSDOC_TAGS)"

text \<open>
  The existing tag lines whose name (after the alias) is outside the managed set, each as
  the entry records it (\<open>originalLine\<close>: the line without surrounding white space).
\<close>

definition unmanagedLines :: "string list \<Rightarrow> string list" where
  "unmanagedLines E = filter (\<lambda>t. tagNameOf t \<notin> MANAGED_JSDOC_TAGS) (tagLines E)"

text \<open>The bare lines of an existing comment: trimmed, not empty, not starting with \<open>@\<close>.\<close>

definition bareLines :: "string list \<Rightarrow> string list" where
  "bareLines E = filter (\<lambda>t. t \<noteq> [] \<and> \<not> startsWith t ''@'') (map trim E)"

text \<open>
  The lines \<open>updateJSDocBlock\<close> starts its result with: the description, if one is
  emitted, and the blank separator, if one is emitted.
\<close>

definition headLines :: "string list \<Rightarrow> InferredJSDoc \<Rightarrow> string list" where
  "headLines E inferred =
     (let st = parseLines E;
          updatedLines = descriptionLines (mainDescription st) inferred
      in updatedLines @ separatorLines updatedLines (existingTags st) inferred)"

text \<open>The lines that follow them: the class section up to the unmanaged tags.\<close>

definition bodyLines :: "string list \<Rightarrow> InferredJSDoc \<Rightarrow> string list" where
  "bodyLines E inferred =
     (let tags = existingTags (parseLines E)
      in classLines tags inferred @ constructorLines tags inferred @
         paramLines tags inferred @ returnsLines tags inferred @
         throwsLines tags inferred @ exampleLines tags inferred @ otherLines tags)"

text \<open>Whether a comment is the one \<open>getJSDocBlocks\<close> looks for.\<close>

definition isDocComment :: "Comment \<Rightarrow> bool" where
  "isDocComment c = (c_type c = ''CommentBlock'' \<and> startsWith (c_value c) ''*'')"

section \<open>The parse loop\<close>

lemma parseLines_snoc: "parseLines (E @ [l]) = parseLine (parseLines E) l"
  by (simp add: parseLines_def)

lemma parseLines_Nil:
  "parseLines [] = \<lparr>existingTags = [], mainDescription = [], foundMainDescription = False\<rparr>"
  by (simp add: parseLines_def)

lemma found_parseLine: "foundMainDescription (parseLine st l) = foundMainDescription st"
  by (simp add: parseLine_def Let_def)

lemma found_parseLines: "\<not> foundMainDescription (parseLines E)"
  by (induction E rule: rev_induct) (simp_all add: parseLines_Nil parseLines_snoc found_parseLine)

lemma tags_parseLine:
  "existingTags (parseLine st l) =
     existingTags st @ (if startsWith (trim l) ''@'' then [(keyOf (trim l), entryOf (trim l))] else [])"
  by (simp add: parseLine_def Let_def keyOf_def entryOf_def)

lemma tagLines_snoc:
  "tagLines (E @ [l]) = tagLines E @ (if startsWith (trim l) ''@'' then [trim l] else [])"
  by (simp add: tagLines_def)

lemma existingTags_parseLines:
  "existingTags (parseLines E) = map (\<lambda>t. (keyOf t, entryOf t)) (tagLines E)"
  by (induction E rule: rev_induct)
     (simp_all add: parseLines_Nil parseLines_snoc tags_parseLine tagLines_snoc, simp add: tagLines_def)

lemma other_not_managed: "''other'' \<notin> MANAGED_JSDOC_TAGS"
  by (simp add: MANAGED_JSDOC_TAGS_def)

lemma get_map_key:
  "get (map (\<lambda>t. (keyOf t, entryOf t)) ts) k = map entryOf (filter (\<lambda>t. keyOf t = k) ts)"
  by (induction ts) (simp_all add: get_def)

lemma get_other: "get (existingTags (parseLines E)) ''other'' = map entryOf (unmanagedLines E)"
proof -
  have "(\<lambda>t. keyOf t = ''other'') = (\<lambda>t. tagNameOf t \<notin> MANAGED_JSDOC_TAGS)"
    using other_not_managed by (auto simp: keyOf_def fun_eq_iff)
  then show ?thesis
    by (simp add: existingTags_parseLines get_map_key unmanagedLines_def)
qed

lemma get_managed:
  assumes "k \<in> MANAGED_JSDOC_TAGS"
  shows "get (existingTags (parseLines E)) k =
         map entryOf (filter (\<lambda>t. tagNameOf t = k) (tagLines E))"
proof -
  have "(\<lambda>t. keyOf t = k) = (\<lambda>t. tagNameOf t = k)"
    using assms other_not_managed by (auto simp: keyOf_def fun_eq_iff)
  then show ?thesis
    by (simp add: existingTags_parseLines get_map_key)
qed

lemma get_absent:
  assumes "k \<notin> MANAGED_JSDOC_TAGS" and "k \<noteq> ''other''"
  shows "get (existingTags (parseLines E)) k = []"
proof -
  have "(\<lambda>t. keyOf t = k) = (\<lambda>t. False)"
    using assms by (auto simp: keyOf_def fun_eq_iff)
  then show ?thesis
    by (simp add: existingTags_parseLines get_map_key)
qed

lemma otherLines_parse: "otherLines (existingTags (parseLines E)) = unmanagedLines E"
  by (simp add: otherLines_def get_other comp_def entryOf_def)

lemma md_parseLine:
  "\<not> foundMainDescription st \<Longrightarrow> mainDescription (parseLine st l) =
     (if trim l \<noteq> [] \<and> \<not> startsWith (trim l) ''@''
      then (if mainDescription st = [] then trim l else mainDescription st @ nl @ trim l)
      else mainDescription st)"
  by (simp add: parseLine_def Let_def)

lemma join_snoc: "join sep (ws @ [w]) = (if ws = [] then w else join sep ws @ sep @ w)"
  by (induction sep ws rule: join.induct) auto

lemma join_empty_iff: "\<forall>w \<in> set ws. w \<noteq> [] \<Longrightarrow> (join sep ws = []) = (ws = [])"
  by (induction sep ws rule: join.induct) auto

lemma bareLines_snoc:
  "bareLines (E @ [l]) =
     bareLines E @ (if trim l \<noteq> [] \<and> \<not> startsWith (trim l) ''@'' then [trim l] else [])"
  by (simp add: bareLines_def)

lemma bareLines_nonempty: "\<forall>w \<in> set (bareLines E). w \<noteq> []"
  by (simp add: bareLines_def)

lemma mainDescription_parseLines: "mainDescription (parseLines E) = join nl (bareLines E)"
proof (induction E rule: rev_induct)
  case Nil
  show ?case by (simp add: parseLines_Nil bareLines_def)
next
  case (snoc l E)
  have e: "(join nl (bareLines E) = []) = (bareLines E = [])"
    using bareLines_nonempty by (rule join_empty_iff)
  show ?case
    using snoc e
    by (simp add: parseLines_snoc md_parseLine found_parseLines bareLines_snoc join_snoc)
qed

section \<open>Trimming and tag names\<close>

lemma rtrim_prefix: "\<exists>y. x = rev (dropWhile P (rev x)) @ y"
proof -
  have "rev (takeWhile P (rev x) @ dropWhile P (rev x)) = rev (rev x)"
    by (simp only: takeWhile_dropWhile_id)
  then have "rev (dropWhile P (rev x)) @ rev (takeWhile P (rev x)) = x"
    by (simp only: rev_append rev_rev_ident)
  then show ?thesis by metis
qed

lemma dropWhile_append_keep:
  "dropWhile P ys = ys \<Longrightarrow> dropWhile P (xs @ ys) = dropWhile P xs @ ys"
  by (induction xs) simp_all

lemma dropWhile_id_hd: "xs \<noteq> [] \<Longrightarrow> \<not> P (hd xs) \<Longrightarrow> dropWhile P xs = xs"
  by (cases xs) simp_all

lemma is_ws_simps:
  "is_ws (CHR '' '')" "\<not> is_ws (CHR ''@'')" "\<not> is_ws (CHR ''{'')"
  by (simp_all add: is_ws_def)

lemma trim_Nil: "trim [] = []"
  by (simp add: trim_def)

lemma trim_append_nonws:
  assumes "p \<noteq> []" and "\<not> is_ws (hd p)" and "\<not> is_ws (last p)"
  shows "trim (p @ r) = p @ rev (dropWhile is_ws (rev r))"
proof -
  have a: "dropWhile is_ws (p @ r) = p @ r"
    using assms(1,2) by (cases p) simp_all
  have "hd (rev p) = last p" using assms(1) by (simp add: hd_rev)
  then have b: "dropWhile is_ws (rev p) = rev p"
    using assms(1,3) by (intro dropWhile_id_hd) simp_all
  have "dropWhile is_ws (rev r @ rev p) = dropWhile is_ws (rev r) @ rev p"
    using b by (rule dropWhile_append_keep)
  then show ?thesis
    by (simp add: trim_def a)
qed

lemma trim_ends:
  assumes "trim s \<noteq> []"
  shows "\<not> is_ws (hd (trim s))" and "\<not> is_ws (last (trim s))"
proof -
  let ?d = "dropWhile is_ws s"
  obtain y where y: "?d = trim s @ y"
    using rtrim_prefix [of ?d is_ws] by (auto simp: trim_def)
  from assms y have "?d \<noteq> []" by auto
  then have "\<not> is_ws (hd ?d)" by (rule hd_dropWhile)
  with y assms show "\<not> is_ws (hd (trim s))" by (metis hd_append2)
  have "dropWhile is_ws (rev ?d) \<noteq> []" using assms by (simp add: trim_def)
  then have "\<not> is_ws (hd (dropWhile is_ws (rev ?d)))" by (rule hd_dropWhile)
  then show "\<not> is_ws (last (trim s))"
    using assms by (simp add: trim_def last_rev)
qed

lemma trim_trim: "trim (trim s) = trim s"
proof (cases "trim s = []")
  case True
  then show ?thesis by (simp add: trim_Nil)
next
  case False
  then show ?thesis
    using trim_append_nonws [of "trim s" "[]"] trim_ends [of s] by simp
qed

lemma split_nonempty: "split c s \<noteq> []"
  by (induction s) (auto split: list.splits)

lemma hd_split: "hd (split c s) = takeWhile (\<lambda>x. x \<noteq> c) s"
  by (induction s) (auto split: list.splits simp: split_nonempty)

lemma tagOfLine_emitted:
  assumes "\<forall>c \<in> set w. \<not> is_ws c"
  shows "tagOfLine (CHR ''@'' # w @ CHR '' '' # r) =
         Some (if w = ''return'' then ''returns'' else w)"
proof -
  let ?p = "CHR ''@'' # w"
  define r' where "r' = rev (dropWhile is_ws (rev (CHR '' '' # r)))"
  have lastp: "\<not> is_ws (last ?p)"
  proof (cases w rule: rev_cases)
    case Nil
    then show ?thesis by (simp add: is_ws_simps)
  next
    case (snoc ys y)
    then show ?thesis using assms by simp
  qed
  have "trim (?p @ CHR '' '' # r) = ?p @ r'"
    unfolding r'_def using lastp by (intro trim_append_nonws) (simp_all add: is_ws_simps)
  then have t: "trim (CHR ''@'' # w @ CHR '' '' # r) = CHR ''@'' # w @ r'" by simp
  obtain y where y: "CHR '' '' # r = r' @ y"
    unfolding r'_def using rtrim_prefix by blast
  have r': "r' = [] \<or> hd r' = CHR '' ''"
    using y by (cases r') auto
  have w: "\<forall>c \<in> set w. c \<noteq> CHR '' ''" using assms is_ws_simps(1) by auto
  have "takeWhile (\<lambda>x. x \<noteq> CHR '' '') (w @ r') = w"
    using r' w by (cases r') auto
  then have h: "hd (split (CHR '' '') (CHR ''@'' # w @ r')) = CHR ''@'' # w"
    by (simp add: hd_split del: split.simps)
  show ?thesis
    unfolding tagOfLine_def tagNameOf_def Let_def t h
    by (simp add: substring_def startsWith_def)
qed

section \<open>The tags of the emitted lines\<close>

lemma tagOfLine_tagLine:
  assumes "t \<in> set (tagLines E)"
  shows "tagOfLine t = Some (tagNameOf t)"
proof -
  from assms obtain l where "t = trim l" and "startsWith t ''@''"
    by (auto simp: tagLines_def)
  then show ?thesis by (simp add: tagOfLine_def trim_trim)
qed

lemma tag_class: "tagOfLine ''@class'' = Some ''class''"
  by code_simp

lemma tag_augments: "tagOfLine (''@augments '' @ r) = Some ''augments''"
  using tagOfLine_emitted [of "''augments''" r] by (simp add: is_ws_def)

lemma tag_constructor: "tagOfLine (''@constructor '' @ r) = Some ''constructor''"
  using tagOfLine_emitted [of "''constructor''" r] by (simp add: is_ws_def)

lemma tag_param: "tagOfLine (''@param '' @ r) = Some ''param''"
  using tagOfLine_emitted [of "''param''" r] by (simp add: is_ws_def)

lemma tag_returns: "tagOfLine (''@returns '' @ r) = Some ''returns''"
  using tagOfLine_emitted [of "''returns''" r] by (simp add: is_ws_def)

lemma tag_throws: "tagOfLine (''@throws '' @ r) = Some ''throws''"
  using tagOfLine_emitted [of "''throws''" r] by (simp add: is_ws_def)

lemma tag_example: "tagOfLine (''@example '' @ r) = Some ''example''"
  using tagOfLine_emitted [of "''example''" r] by (simp add: is_ws_def)

lemma managed_simps:
  "''class'' \<in> MANAGED_JSDOC_TAGS" "''throws'' \<in> MANAGED_JSDOC_TAGS"
  "''returns'' \<in> MANAGED_JSDOC_TAGS" "''param'' \<in> MANAGED_JSDOC_TAGS"
  "''example'' \<in> MANAGED_JSDOC_TAGS"
  "''augments'' \<notin> MANAGED_JSDOC_TAGS" "''extends'' \<notin> MANAGED_JSDOC_TAGS"
  "''constructor'' \<notin> MANAGED_JSDOC_TAGS"
  by (simp_all add: MANAGED_JSDOC_TAGS_def)

lemma get_managed_mem:
  assumes "k \<in> MANAGED_JSDOC_TAGS" and "e \<in> set (get (existingTags (parseLines E)) k)"
  shows "tagOfLine (originalLine e) = Some k"
proof -
  from assms obtain t where "e = entryOf t" "t \<in> set (tagLines E)" "tagNameOf t = k"
    by (auto simp: get_managed)
  then show ?thesis
    using tagOfLine_tagLine [of t E] by (simp add: entryOf_def)
qed

lemma tag_classLines:
  assumes "l \<in> set (classLines (existingTags (parseLines E)) M)"
  shows "tagOfLine l = Some ''class'' \<or> tagOfLine l = Some ''augments''"
proof -
  let ?tags = "existingTags (parseLines E)"
  have a: "get ?tags ''augments'' = []" "get ?tags ''extends'' = []"
    by (simp_all add: get_absent managed_simps)
  have c: "get ?tags ''class'' \<noteq> [] \<Longrightarrow>
           tagOfLine (originalLine (hd (get ?tags ''class''))) = Some ''class''"
    by (rule get_managed_mem [where E = E]) (simp_all add: managed_simps)
  show ?thesis
    using assms c
    by (auto simp: classLines_def has_def a tag_class tag_augments [simplified]
             split: if_splits)
qed

lemma tag_constructorParamLine:
  "tagOfLine (constructorParamLine tags p) = Some ''param''"
  by (simp add: constructorParamLine_def tag_param [simplified] split: option.split)

lemma tag_constructorLines:
  assumes "l \<in> set (constructorLines (existingTags (parseLines E)) M)"
  shows "tagOfLine l = Some ''constructor'' \<or> tagOfLine l = Some ''param''"
proof -
  let ?tags = "existingTags (parseLines E)"
  have a: "get ?tags ''constructor'' = []"
    by (simp add: get_absent managed_simps)
  show ?thesis
    using assms
    by (auto simp: constructorLines_def has_def a tag_constructor [simplified]
                   tag_constructorParamLine
             split: if_splits)
qed

lemma tag_paramLine: "tagOfLine (paramLine tags p) = Some ''param''"
  by (simp add: paramLine_def Let_def tag_param [simplified] split: option.split)

lemma tag_paramLines:
  "l \<in> set (paramLines tags M) \<Longrightarrow> tagOfLine l = Some ''param''"
  by (auto simp: paramLines_def tag_paramLine)

lemma tag_returnsLines:
  "l \<in> set (returnsLines tags M) \<Longrightarrow> tagOfLine l = Some ''returns''"
  by (auto simp: returnsLines_def tag_returns [simplified] split: option.splits if_splits)

lemma tag_throwLine:
  "tagOfLine (throwLine (existingTags (parseLines E)) thr) = Some ''throws''"
proof (cases "find (\<lambda>t. includesStr (content t) (t_description thr))
               (get (existingTags (parseLines E)) ''throws'')")
  case None
  then show ?thesis by (simp add: throwLine_def tag_throws [simplified])
next
  case (Some e)
  then have "e \<in> set (get (existingTags (parseLines E)) ''throws'')"
    by (auto simp: find_Some_iff)
  then have "tagOfLine (originalLine e) = Some ''throws''"
    by (intro get_managed_mem) (simp_all add: managed_simps)
  with Some show ?thesis by (simp add: throwLine_def)
qed

lemma tag_throwsLines:
  "l \<in> set (throwsLines (existingTags (parseLines E)) M) \<Longrightarrow> tagOfLine l = Some ''throws''"
  by (auto simp: throwsLines_def tag_throwLine)

lemma tag_exampleLines:
  "l \<in> set (exampleLines tags M) \<Longrightarrow> tagOfLine l = Some ''example''"
  by (auto simp: exampleLines_def exampleLine_def Let_def tag_example [simplified]
           split: if_splits)

lemma tag_unmanagedLines:
  assumes "l \<in> set (unmanagedLines E)"
  shows "\<exists>k. tagOfLine l = Some k \<and> k \<notin> MANAGED_JSDOC_TAGS"
proof -
  from assms have "l \<in> set (tagLines E)" "tagNameOf l \<notin> MANAGED_JSDOC_TAGS"
    by (simp_all add: unmanagedLines_def)
  then show ?thesis using tagOfLine_tagLine by blast
qed

lemma updateJSDocBlock_split: "updateJSDocBlock E M = headLines E M @ bodyLines E M"
  by (simp add: updateJSDocBlock_def headLines_def bodyLines_def Let_def)

section \<open>Lines without surrounding white space\<close>

lemma unmanagedLines_trimmed:
  assumes "\<forall>l \<in> set E. trim l = l"
  shows "unmanagedLines E = filter isUnmanagedTagLine E"
proof -
  from assms have m: "map trim E = E" by (simp add: map_idI)
  have "(startsWith x ''@'' \<and> tagNameOf x \<notin> MANAGED_JSDOC_TAGS) = isUnmanagedTagLine x"
    if "x \<in> set E" for x
  proof -
    from that assms have "trim x = x" by simp
    then show ?thesis by (simp add: isUnmanagedTagLine_def tagOfLine_def)
  qed
  then have "filter (\<lambda>t. startsWith t ''@'' \<and> tagNameOf t \<notin> MANAGED_JSDOC_TAGS) E
        = filter isUnmanagedTagLine E"
    by (intro filter_cong) simp_all
  then show ?thesis
    by (simp add: unmanagedLines_def tagLines_def m conj_commute)
qed

lemma cleanLine_trimmed: "trim (cleanLine l) = cleanLine l"
  by (simp add: cleanLine_def Let_def trim_trim)

lemma shift_subset:
  "set (case lines of [] \<Rightarrow> [] | l # ls \<Rightarrow> if l = [] then ls else l # ls) \<subseteq> set lines"
  by (cases lines) auto

lemma pop_subset:
  "set (if xs \<noteq> [] \<and> (last xs = a \<or> last xs = b) then butlast xs else xs) \<subseteq> set xs"
  by (auto dest: in_set_butlastD)

lemma getJSDocBlocks_lines:
  assumes "getJSDocBlocks comments = Some ls"
  shows "\<exists>c :: Comment. set ls \<subseteq> set (map cleanLine (split (CHR 0x0A) (c_value c)))"
proof (cases comments)
  case None
  with assms show ?thesis by (simp add: getJSDocBlocks_def)
next
  case (Some cs)
  show ?thesis
  proof (cases "find (\<lambda>c. c_type c = ''CommentBlock'' \<and> startsWith (c_value c) ''*'') cs")
    case None
    then have "getJSDocBlocks (Some cs) = None"
      by (simp add: getJSDocBlocks_def)
    with \<open>comments = Some cs\<close> assms show ?thesis by simp
  next
    case (Some c)
    define lines1 where "lines1 =
      (case map cleanLine (split (CHR 0x0A) (c_value c)) of [] \<Rightarrow> []
       | l # ls \<Rightarrow> if l = [] then ls else l # ls)"
    show ?thesis
    proof (cases "cs = []")
      case True
      then have "getJSDocBlocks (Some cs) = None"
        by (simp add: getJSDocBlocks_def)
      with \<open>comments = Some cs\<close> assms show ?thesis by simp
    next
      case False
      with Some have "getJSDocBlocks (Some cs) =
        Some (if lines1 \<noteq> [] \<and> (last lines1 = ''*/'' \<or> last lines1 = ''/'')
              then butlast lines1 else lines1)"
        by (simp add: getJSDocBlocks_def Let_def lines1_def)
      with \<open>comments = Some cs\<close> assms
      have "ls = (if lines1 \<noteq> [] \<and> (last lines1 = ''*/'' \<or> last lines1 = ''/'')
              then butlast lines1 else lines1)"
        by simp
      then have "set ls \<subseteq> set lines1"
        by (simp only: pop_subset)
      also have "\<dots> \<subseteq> set (map cleanLine (split (CHR 0x0A) (c_value c)))"
        unfolding lines1_def by (rule shift_subset)
      finally show ?thesis by (rule exI)
    qed
  qed
qed

lemma getJSDocBlocks_trimmed:
  assumes "getJSDocBlocks comments = Some ls"
  shows "\<forall>l \<in> set ls. trim l = l"
  using getJSDocBlocks_lines [OF assms] cleanLine_trimmed by auto

section \<open>The properties of the specification\<close>

text \<open>
  C1 (idempotence of reconciliation: \<open>reconcile(L, M) = L\<close> for \<open>L = reconcile(E, M)\<close>).
  The code is not idempotent. The returns step takes the whole content of an existing
  \<open>@returns\<close> entry, type included, as its description, so the line gets its type once more
  on every run: for a function \<open>add\<close> that returns \<open>number\<close> the first run turns
  \<open>@returns {number} The sum.\<close> into \<open>@returns {number} {number} The sum.\<close>, and the second
  run, on that result and with the same metadata, adds a third \<open>{number}\<close>.
\<close>

theorem returns_line_grows_on_rerun:
  "updateJSDocBlock [''Adds two numbers.'', ''@returns {number} The sum.'']
     (emptyDoc\<lparr>functionName := Some ''add'', description := Some ''Adds two numbers.'',
        params := Some [],
        returns := Some \<lparr>r_type = Some ''number'', r_description = Some ''The sum.''\<rparr>,
        throws := Some [], examples := Some []\<rparr>)
     = [''Adds two numbers.'', [], ''@returns {number} {number} The sum.'']
   \<and> updateJSDocBlock [''Adds two numbers.'', [], ''@returns {number} {number} The sum.'']
     (emptyDoc\<lparr>functionName := Some ''add'', description := Some ''Adds two numbers.'',
        params := Some [],
        returns := Some \<lparr>r_type = Some ''number'', r_description = Some ''The sum.''\<rparr>,
        throws := Some [], examples := Some []\<rparr>)
     = [''Adds two numbers.'', [], ''@returns {number} {number} {number} The sum.'']"
  by code_simp

text \<open>
  A second run changes the result of the first in the other sections too. For a class the
  first run writes the marker right after the description, and the second run, which now
  finds an existing tag, puts a blank line between them.
\<close>

lemma class_marker_gets_separator_on_rerun:
  "updateJSDocBlock [''Represents a user.'']
     (emptyDoc\<lparr>name := Some ''User'', description := Some ''Represents a user.''\<rparr>)
     = [''Represents a user.'', ''@class'']
   \<and> updateJSDocBlock [''Represents a user.'', ''@class'']
     (emptyDoc\<lparr>name := Some ''User'', description := Some ''Represents a user.''\<rparr>)
     = [''Represents a user.'', [], ''@class'']"
  by code_simp

text \<open>
  In each pair below the first list is the result of a first run (on no existing line, or
  on the lines shown in the last pair) and the second list is what a second run makes of
  it: a parameter whose name occurs in its type, two throws of which one description
  contains the other, an example, a constructor description, a description that ends with
  a space, a description that starts with \<open>@\<close>, and an existing comment whose only tag is
  a managed one that the metadata no longer has.
\<close>

lemma second_run_changes_other_sections:
  "updateJSDocBlock [''@param {number} n - The count.'']
     (emptyDoc\<lparr>params := Some [\<lparr>p_name = ''n'', p_type = ''number'',
                                   p_description = ''The count.''\<rparr>]\<rparr>)
     = [''@param {number} n - umber} n - The count.'']
   \<and> updateJSDocBlock [''@throws {Error} Invalid input error'', ''@throws {Error} Invalid input'']
     (emptyDoc\<lparr>throws := Some [\<lparr>t_description = ''Invalid input error''\<rparr>,
                                \<lparr>t_description = ''Invalid input''\<rparr>]\<rparr>)
     = [''@throws {Error} Invalid input error'', ''@throws {Error} Invalid input error'']
   \<and> updateJSDocBlock [''@example '' @ fence @ ''hello()'' @ fence]
     (emptyDoc\<lparr>examples := Some [fence @ ''hello()'' @ fence]\<rparr>)
     = []
   \<and> updateJSDocBlock [''@constructor Creates a user.'']
     (emptyDoc\<lparr>constructorDescription := Some ''Creates a user.''\<rparr>)
     = [''@constructor Creates a user.'', ''@constructor Creates a user.'']
   \<and> updateJSDocBlock [''Adds two numbers. '']
     (emptyDoc\<lparr>description := Some ''Adds two numbers. ''\<rparr>)
     = [''Adds two numbers.'']
   \<and> updateJSDocBlock [''@deprecated'']
     (emptyDoc\<lparr>description := Some ''@deprecated''\<rparr>)
     = [''@deprecated'', [], ''@deprecated'']
   \<and> updateJSDocBlock [''Old text.'', ''@param {string} x - gone''] emptyDoc
     = [''Old text.'', []]
   \<and> updateJSDocBlock [''Old text.'', []] emptyDoc
     = [''Old text.'']"
  by code_simp

text \<open>
  C2 (example deduplication: an example present both in the existing lines and in the
  metadata appears exactly once in the output). The code skips a metadata example that
  matches an existing one, and never writes the existing \<open>@example\<close> entries back: the
  example appears zero times. Here the existing comment and the metadata hold the same
  example, and the output has lost it.
\<close>

theorem matching_example_is_dropped:
  "updateJSDocBlock [''Says hello.'', ''@example '' @ fence @ ''hello()'' @ fence]
     (emptyDoc\<lparr>functionName := Some ''hello'', description := Some ''Says hello.'',
        examples := Some [fence @ ''hello()'' @ fence]\<rparr>)
     = [''Says hello.'', []]"
  by code_simp

text \<open>
  C3 (human-content preservation). When the main description parsed from the existing
  lines is not empty and does not contain the description placeholder, the description
  step emits exactly that text, and it is the first line of the result, whatever the
  metadata says.
\<close>

theorem human_description_preserved:
  assumes "mainDescription (parseLines E) \<noteq> []"
    and "\<not> includesStr (mainDescription (parseLines E)) placeholderDesc"
  shows "descriptionLines (mainDescription (parseLines E)) M = [mainDescription (parseLines E)]
         \<and> (\<exists>rest. updateJSDocBlock E M = mainDescription (parseLines E) # rest)"
proof -
  have d: "descriptionLines (mainDescription (parseLines E)) M = [mainDescription (parseLines E)]"
    using assms by (simp add: descriptionLines_def Let_def)
  then show ?thesis
    by (simp add: updateJSDocBlock_def Let_def)
qed

theorem human_description_preserved_witness:
  "mainDescription (parseLines [''A human description.'',
       ''@param {string} name - The string value of name.'']) \<noteq> []
   \<and> \<not> includesStr (mainDescription (parseLines [''A human description.'',
       ''@param {string} name - The string value of name.''])) placeholderDesc
   \<and> (\<exists>rest. updateJSDocBlock [''A human description.'',
         ''@param {string} name - The string value of name.'']
        (emptyDoc\<lparr>description := Some ''AI text'',
           params := Some [\<lparr>p_name = ''name'', p_type = ''string'',
                             p_description = ''The full legal name.''\<rparr>]\<rparr>)
       = ''A human description.'' # rest)"
proof -
  let ?E = "[''A human description.'', ''@param {string} name - The string value of name.'']"
  have m: "mainDescription (parseLines ?E) = ''A human description.''"
    by code_simp
  have h1: "mainDescription (parseLines ?E) \<noteq> []"
    by (simp add: m)
  have h2: "\<not> includesStr (mainDescription (parseLines ?E)) placeholderDesc"
    unfolding m by code_simp
  show ?thesis
    using h1 h2 human_description_preserved [OF h1 h2] by (simp add: m)
qed

text \<open>
  C4 (description-parsing cutoff: a bare line after the first tag line contributes nothing
  to the main description). The flag \<open>foundMainDescription\<close> that the loop tests is never
  set, so every bare line joins the description, also after a tag line: here the second
  line of a parameter's text ends up in the main description.
\<close>

theorem bare_line_after_tag_joins_description:
  "mainDescription (parseLines [''Adds two numbers.'', ''@param {number} a - The first'',
       ''number to add.'']) = ''Adds two numbers.'' @ nl @ ''number to add.''
   \<and> updateJSDocBlock [''Adds two numbers.'', ''@param {number} a - The first'',
       ''number to add.''] emptyDoc
     = [''Adds two numbers.'' @ nl @ ''number to add.'', []]"
  by code_simp

text \<open>
  C5 (returns reconciliation: with an existing returns entry that is not empty and not the
  placeholder, the emitted line pairs the metadata's type with the existing entry's
  description). The code pairs the metadata's type with the whole content of the existing
  entry, which starts with the entry's own type: the emitted line carries two types. With
  an existing entry that has a type and no description, the type is taken for the
  description and the metadata's description is not used, where the test of the builder
  expects \<open>@returns {Promise<void>} No return value.\<close>
\<close>

theorem returns_line_repeats_existing_type:
  "updateJSDocBlock [''Gets the name.'', ''@returns {string} The name of the user.'']
     (emptyDoc\<lparr>functionName := Some ''getName'', description := Some ''Gets the name.'',
        params := Some [],
        returns := Some \<lparr>r_type = Some ''string'', r_description = Some ''The name.''\<rparr>,
        throws := Some [], examples := Some []\<rparr>)
     = [''Gets the name.'', [], ''@returns {string} {string} The name of the user.'']
   \<and> updateJSDocBlock
       [''This is a human-written description that should be kept.'',
        ''@param {string} name - A placeholder description.'',
        ''@returns {void}'']
       (emptyDoc\<lparr>description := Some ''This is an AI description that should be ignored.'',
          params := Some [\<lparr>p_name = ''name'', p_type = ''string'',
                            p_description = ''The full name of the user.''\<rparr>],
          returns := Some \<lparr>r_type = Some ''Promise<void>'',
                            r_description = Some ''No return value.''\<rparr>\<rparr>)
     = [''This is a human-written description that should be kept.'', [],
        ''@param {string} name - A placeholder description.'',
        ''@returns {Promise<void>} {void}'']"
  by code_simp

text \<open>
  C6 (empty normalization yields absence), as the code does it. The result is absent
  exactly when no candidate is a block comment whose text begins with \<open>*\<close> (also when the
  list of candidates is missing or empty). Once a comment is selected the result is a list
  of lines, which may be empty.
\<close>

theorem getJSDocBlocks_absent_iff:
  "(getJSDocBlocks comments = None) = (\<forall>c \<in> set (items comments). \<not> isDocComment c)"
proof (cases comments)
  case None
  then show ?thesis by (simp add: getJSDocBlocks_def items_def)
next
  case (Some cs)
  have "(\<lambda>c. c_type c = ''CommentBlock'' \<and> startsWith (c_value c) ''*'') = isDocComment"
    by (simp add: isDocComment_def fun_eq_iff)
  then have "getJSDocBlocks (Some cs) =
      (if length cs = 0 then None
       else (case find isDocComment cs of
               None \<Rightarrow> None
             | Some jsdocComment \<Rightarrow>
                 (let lines = map cleanLine (split (CHR 0x0A) (c_value jsdocComment));
                      lines1 = (case lines of [] \<Rightarrow> []
                                | l # ls \<Rightarrow> if l = [] then ls else l # ls);
                      lines2 = (if lines1 \<noteq> [] \<and> (last lines1 = ''*/'' \<or> last lines1 = ''/'')
                                then butlast lines1 else lines1)
                  in Some lines2)))"
    by (simp add: getJSDocBlocks_def)
  then have "(getJSDocBlocks (Some cs) = None) = (find isDocComment cs = None)"
    by (cases cs) (simp_all add: Let_def split: option.split)
  then show ?thesis
    using Some by (auto simp: items_def find_None_iff)
qed

theorem getJSDocBlocks_absent_iff_witness:
  "getJSDocBlocks (Some [\<lparr>c_type = ''CommentLine'', c_value = '' A regular comment''\<rparr>]) = None
   \<and> getJSDocBlocks (Some [\<lparr>c_type = ''CommentLine'', c_value = '' A regular comment''\<rparr>,
        \<lparr>c_type = ''CommentBlock'', c_value = ''* Adds two numbers. ''\<rparr>]) \<noteq> None"
  using getJSDocBlocks_absent_iff
    [of "Some [\<lparr>c_type = ''CommentLine'', c_value = '' A regular comment''\<rparr>]"]
    getJSDocBlocks_absent_iff
    [of "Some [\<lparr>c_type = ''CommentLine'', c_value = '' A regular comment''\<rparr>,
        \<lparr>c_type = ''CommentBlock'', c_value = ''* Adds two numbers. ''\<rparr>]"]
  by (simp add: items_def isDocComment_def startsWith_def)

text \<open>
  A comment that normalizes to no line does not give the absent value: the empty
  documentation comment \<open>/** */\<close> is selected, no line is left of it, and the result is
  the empty list.
\<close>

theorem empty_doc_comment_counterexample:
  "isDocComment \<lparr>c_type = ''CommentBlock'', c_value = ''* ''\<rparr>
   \<and> getJSDocBlocks (Some [\<lparr>c_type = ''CommentBlock'', c_value = ''* ''\<rparr>]) = Some []
   \<and> getJSDocBlocks (Some [\<lparr>c_type = ''CommentBlock'', c_value = ''* ''\<rparr>]) \<noteq> None"
  by code_simp

text \<open>
  C7 (unmanaged round trip). The result of \<open>updateJSDocBlock\<close> ends with the existing tag
  lines whose name is outside the managed set, each as its entry keeps it and in the order
  of the existing comment; none of them counts as a managed tag line, and every line of
  the result that carries a managed tag stands before them. An entry keeps its line
  without surrounding white space: when the existing lines have none, as the lines
  \<open>getJSDocBlocks\<close> returns, these are the unmanaged tag lines of the existing comment
  themselves.
\<close>

theorem unmanaged_round_trip:
  "\<exists>managed. updateJSDocBlock E M = managed @ unmanagedLines E
     \<and> (\<forall>l \<in> set (unmanagedLines E). \<not> isManagedTagLine l)
     \<and> (\<forall>i < length (updateJSDocBlock E M).
          isManagedTagLine (updateJSDocBlock E M ! i) \<longrightarrow> i < length managed)
     \<and> ((\<forall>l \<in> set E. trim l = l) \<longrightarrow> unmanagedLines E = filter isUnmanagedTagLine E)"
proof -
  let ?tags = "existingTags (parseLines E)"
  define managed where "managed = headLines E M @ classLines ?tags M @ constructorLines ?tags M @
    paramLines ?tags M @ returnsLines ?tags M @ throwsLines ?tags M @ exampleLines ?tags M"
  have out: "updateJSDocBlock E M = managed @ unmanagedLines E"
    by (simp add: updateJSDocBlock_split bodyLines_def Let_def managed_def otherLines_parse)
  have un: "\<forall>l \<in> set (unmanagedLines E). \<not> isManagedTagLine l"
    using tag_unmanagedLines [of _ E] by (fastforce simp: isManagedTagLine_def)
  have "i < length managed"
    if "i < length (managed @ unmanagedLines E)"
      and "isManagedTagLine ((managed @ unmanagedLines E) ! i)" for i
  proof (rule ccontr)
    assume "\<not> i < length managed"
    with that(1) have "(managed @ unmanagedLines E) ! i \<in> set (unmanagedLines E)"
      by (simp add: nth_append)
    with un that(2) show False by blast
  qed
  then have idx: "\<forall>i < length (updateJSDocBlock E M).
      isManagedTagLine (updateJSDocBlock E M ! i) \<longrightarrow> i < length managed"
    unfolding out by blast
  have tr: "(\<forall>l \<in> set E. trim l = l) \<longrightarrow> unmanagedLines E = filter isUnmanagedTagLine E"
    using unmanagedLines_trimmed by blast
  from out un idx tr show ?thesis by blast
qed

theorem unmanaged_round_trip_witness:
  "unmanagedLines [''A simple function.'', ''@see https://example.com''] =
     [''@see https://example.com'']
   \<and> updateJSDocBlock [''A simple function.'', ''@see https://example.com'']
        (emptyDoc\<lparr>description := Some ''A simple function with more details.'',
           params := Some [\<lparr>p_name = ''id'', p_type = ''number'',
                             p_description = ''The identifier.''\<rparr>]\<rparr>)
      = [''A simple function.'', [], ''@param {number} id - The identifier.'',
         ''@see https://example.com'']
   \<and> isManagedTagLine ''@param {number} id - The identifier.''
   \<and> (\<exists>managed. [''A simple function.'', [], ''@param {number} id - The identifier.'',
         ''@see https://example.com''] = managed @ [''@see https://example.com'']
        \<and> 2 < length managed)
   \<and> trim ''A simple function.'' = ''A simple function.''
   \<and> trim ''@see https://example.com'' = ''@see https://example.com''
   \<and> filter isUnmanagedTagLine [''A simple function.'', ''@see https://example.com'']
      = [''@see https://example.com'']"
proof -
  let ?E = "[''A simple function.'', ''@see https://example.com'']"
  let ?M = "emptyDoc\<lparr>description := Some ''A simple function with more details.'',
           params := Some [\<lparr>p_name = ''id'', p_type = ''number'',
                             p_description = ''The identifier.''\<rparr>]\<rparr>"
  have u: "unmanagedLines ?E = [''@see https://example.com'']"
    by code_simp
  have o: "updateJSDocBlock ?E ?M = [''A simple function.'', [],
      ''@param {number} id - The identifier.'', ''@see https://example.com'']"
    by code_simp
  have m: "isManagedTagLine ''@param {number} id - The identifier.''"
    by code_simp
  have tr: "\<forall>l \<in> set ?E. trim l = l"
    by code_simp
  obtain managed where a: "updateJSDocBlock ?E ?M = managed @ unmanagedLines ?E"
    and b: "\<forall>i < length (updateJSDocBlock ?E ?M).
          isManagedTagLine (updateJSDocBlock ?E ?M ! i) \<longrightarrow> i < length managed"
    and c: "(\<forall>l \<in> set ?E. trim l = l) \<longrightarrow> unmanagedLines ?E = filter isUnmanagedTagLine ?E"
    using unmanaged_round_trip [of ?E ?M] by blast
  have "isManagedTagLine (updateJSDocBlock ?E ?M ! 2)"
    unfolding o using m by simp
  moreover have "2 < length (updateJSDocBlock ?E ?M)"
    unfolding o by simp
  ultimately have "2 < length managed"
    using b by blast
  moreover from c tr have "filter isUnmanagedTagLine ?E = [''@see https://example.com'']"
    unfolding u by simp
  moreover have "trim ''A simple function.'' = ''A simple function.''"
    "trim ''@see https://example.com'' = ''@see https://example.com''"
    using tr by simp_all
  ultimately show ?thesis
    using a unfolding u o using m by blast
qed

text \<open>
  C8 (blank separator exactly when a description is emitted and a later section is not
  empty; no trailing blank line when the description is the only output). The code decides
  on the metadata's \<open>params\<close>, \<open>returns.type\<close>, \<open>throws\<close> and \<open>examples\<close> and on the
  presence of any existing tag, not on what the later sections emit. For a function that
  returns \<open>void\<close> the description is the whole output and a blank line follows it; for a
  class the marker follows the description without a blank line.
\<close>

theorem separator_differs_from_sections:
  "updateJSDocBlock [''Logs a message.'']
     (emptyDoc\<lparr>functionName := Some ''log'', description := Some ''Logs a message.'',
        params := Some [],
        returns := Some \<lparr>r_type = Some ''void'',
                          r_description = Some ''The result of the operation.''\<rparr>,
        throws := Some [], examples := Some []\<rparr>)
     = [''Logs a message.'', []]
   \<and> updateJSDocBlock [''Represents a user.'']
     (emptyDoc\<lparr>name := Some ''User'', description := Some ''Represents a user.'',
        examples := Some []\<rparr>)
     = [''Represents a user.'', ''@class'']"
  by code_simp

text \<open>
  C9 (Fresh Builder, class scenario). For the class metadata of the scenario
  \<open>buildJSDocLines\<close> returns the four lines, in that order; the properties the scenario
  does not give (\<open>functionName\<close>, \<open>params\<close>, \<open>returns\<close>, \<open>throws\<close>) do not matter.
\<close>

theorem buildJSDocLines_class_scenario:
  "buildJSDocLines
     \<lparr>name = Some ''User'', functionName = fn, description = Some ''Represents a user.'',
      extendsClass = None, constructorDescription = Some ''Creates a user.'',
      constructorParams = Some [\<lparr>p_name = ''id'', p_type = ''string'',
                                  p_description = ''The user ID.''\<rparr>],
      params = ps, returns = rs, throws = ts, examples = None\<rparr>
   = [Some ''Represents a user.'', Some ''@class'', Some ''@constructor Creates a user.'',
      Some ''@param {string} id - The user ID.'']"
  by (simp add: buildJSDocLines_def truthy_def hasLength_def items_def str_def
      freshParamLine_def paramPrefix_def)

theorem buildJSDocLines_class_scenario_witness:
  "buildJSDocLines
     \<lparr>name = Some ''User'', functionName = None, description = Some ''Represents a user.'',
      extendsClass = None, constructorDescription = Some ''Creates a user.'',
      constructorParams = Some [\<lparr>p_name = ''id'', p_type = ''string'',
                                  p_description = ''The user ID.''\<rparr>],
      params = None, returns = None, throws = None, examples = None\<rparr>
   = [Some ''Represents a user.'', Some ''@class'', Some ''@constructor Creates a user.'',
      Some ''@param {string} id - The user ID.'']"
  by (rule buildJSDocLines_class_scenario)

text \<open>
  C10 (dispatch on the \<open>name\<close> property). In the result of \<open>updateJSDocBlock\<close>, after the
  description and the separator, a class marker line occurs exactly when \<open>name\<close> is present
  and not empty. In the result of \<open>buildJSDocLines\<close>, after the description, the line
  \<open>@class\<close> occurs exactly when \<open>name\<close> is present and not empty, and then the result does
  not depend on \<open>functionName\<close>, \<open>params\<close>, \<open>returns\<close> or \<open>throws\<close>.
\<close>

theorem class_form_iff_name:
  "updateJSDocBlock E M = headLines E M @ bodyLines E M
   \<and> (\<exists>l \<in> set (bodyLines E M). isClassLine l) = truthy (name M)
   \<and> (Some ''@class'' \<in> set (tl (buildJSDocLines M))) = truthy (name M)
   \<and> (truthy (name M) \<longrightarrow>
        buildJSDocLines (M\<lparr>functionName := fn, params := ps, returns := rs, throws := ts\<rparr>)
        = buildJSDocLines M)"
proof -
  let ?tags = "existingTags (parseLines E)"
  have c1: "\<exists>l \<in> set (classLines ?tags M). isClassLine l" if "truthy (name M)"
  proof (cases "has ?tags ''class''")
    case True
    then have "tagOfLine (originalLine (hd (get ?tags ''class''))) = Some ''class''"
      by (intro get_managed_mem [where E = E]) (simp_all add: managed_simps has_def)
    with True that show ?thesis
      by (simp add: classLines_def isClassLine_def)
  next
    case False
    with that show ?thesis
      by (simp add: classLines_def isClassLine_def tag_class)
  qed
  have c2: "classLines ?tags M = []" if "\<not> truthy (name M)"
    using that by (simp add: classLines_def)
  have n2: "\<not> isClassLine l" if "l \<in> set (constructorLines ?tags M)" for l
    using tag_constructorLines [OF that] by (auto simp: isClassLine_def)
  have n3: "\<not> isClassLine l" if "l \<in> set (paramLines ?tags M)" for l
    using tag_paramLines [OF that] by (simp add: isClassLine_def)
  have n4: "\<not> isClassLine l" if "l \<in> set (returnsLines ?tags M)" for l
    using tag_returnsLines [OF that] by (simp add: isClassLine_def)
  have n5: "\<not> isClassLine l" if "l \<in> set (throwsLines ?tags M)" for l
    using tag_throwsLines [OF that] by (simp add: isClassLine_def)
  have n6: "\<not> isClassLine l" if "l \<in> set (exampleLines ?tags M)" for l
    using tag_exampleLines [OF that] by (simp add: isClassLine_def)
  have n7: "\<not> isClassLine l" if "l \<in> set (otherLines ?tags)" for l
    using tag_unmanagedLines [of l E] that managed_simps(1)
    by (auto simp: isClassLine_def otherLines_parse)
  have u: "(\<exists>l \<in> set (bodyLines E M). isClassLine l) = truthy (name M)"
  proof (cases "truthy (name M)")
    case True
    with c1 show ?thesis by (auto simp: bodyLines_def Let_def)
  next
    case False
    with c2 n2 n3 n4 n5 n6 n7 show ?thesis by (auto simp: bodyLines_def Let_def)
  qed
  have b: "(Some ''@class'' \<in> set (tl (buildJSDocLines M))) = truthy (name M)"
    by (auto simp: buildJSDocLines_def freshParamLine_def split: option.splits if_splits)
  have i: "truthy (name M) \<longrightarrow>
        buildJSDocLines (M\<lparr>functionName := fn, params := ps, returns := rs, throws := ts\<rparr>)
        = buildJSDocLines M"
    by (simp add: buildJSDocLines_def)
  from u b i show ?thesis
    by (simp add: updateJSDocBlock_split)
qed

theorem class_form_iff_name_witness:
  "truthy (name (emptyDoc\<lparr>name := Some ''User'', description := Some ''Represents a user.'',
       params := Some [\<lparr>p_name = ''id'', p_type = ''string'', p_description = ''The user ID.''\<rparr>]\<rparr>))
   \<and> (\<exists>l \<in> set (bodyLines [''Represents a user.'']
        (emptyDoc\<lparr>name := Some ''User'', description := Some ''Represents a user.'',
           params := Some [\<lparr>p_name = ''id'', p_type = ''string'',
                             p_description = ''The user ID.''\<rparr>]\<rparr>)). isClassLine l)
   \<and> Some ''@class'' \<in> set (tl (buildJSDocLines
        (emptyDoc\<lparr>name := Some ''User'', description := Some ''Represents a user.'',
           params := Some [\<lparr>p_name = ''id'', p_type = ''string'',
                             p_description = ''The user ID.''\<rparr>]\<rparr>)))
   \<and> buildJSDocLines
        (emptyDoc\<lparr>name := Some ''User'', description := Some ''Represents a user.'',
           params := Some [\<lparr>p_name = ''id'', p_type = ''string'',
                             p_description = ''The user ID.''\<rparr>]\<rparr>)
      = [Some ''Represents a user.'', Some ''@class'']
   \<and> \<not> truthy (name (emptyDoc\<lparr>functionName := Some ''User'',
       description := Some ''Represents a user.''\<rparr>))
   \<and> \<not> (\<exists>l \<in> set (bodyLines [''Represents a user.'', ''@class'']
        (emptyDoc\<lparr>functionName := Some ''User'',
           description := Some ''Represents a user.''\<rparr>)). isClassLine l)
   \<and> Some ''@class'' \<notin> set (tl (buildJSDocLines
        (emptyDoc\<lparr>functionName := Some ''User'',
           description := Some ''Represents a user.''\<rparr>)))"
proof -
  let ?M = "emptyDoc\<lparr>name := Some ''User'', description := Some ''Represents a user.'',
       params := Some [\<lparr>p_name = ''id'', p_type = ''string'', p_description = ''The user ID.''\<rparr>]\<rparr>"
  let ?F = "emptyDoc\<lparr>functionName := Some ''User'', description := Some ''Represents a user.''\<rparr>"
  have t: "truthy (name ?M)"
    by (simp add: emptyDoc_def truthy_def)
  have f: "\<not> truthy (name ?F)"
    by (simp add: emptyDoc_def truthy_def)
  have o: "buildJSDocLines ?M = [Some ''Represents a user.'', Some ''@class'']"
    by code_simp
  show ?thesis
    using t f o class_form_iff_name [of "[''Represents a user.'']" ?M]
      class_form_iff_name [of "[''Represents a user.'', ''@class'']" ?F]
    by simp
qed

end
